theory Spec2Isabelle
  imports Complex_Main
begin

section \<open>Gridded datasets\<close>

text \<open>
  The notebook works on xarray datasets: named one-dimensional coordinate axes and named
  variables, each variable a dense array over some of the axes. Coordinate values and
  variable values are finite floating-point numbers in the notebook; here they are
  rationals, so comparisons are exact and every finite float is a value of the model.
  Time stamps are numbers on the same scale as the \<open>time\<close> axis.

  Exceptions of the Python code are values of \<open>error\<close>, named after the exception class.
\<close>

datatype error =
    KeyError string
  | IndexError
  | ValueError string
  | TypeError
  | NameError string
  | InvalidIndexError

text \<open>An exception leaves the enclosing computation at once.\<close>

definition and_then :: "error + 'a \<Rightarrow> ('a \<Rightarrow> error + 'b) \<Rightarrow> error + 'b" where
  "and_then r f = (case r of Inl e \<Rightarrow> Inl e | Inr x \<Rightarrow> f x)"

fun map_result :: "('a \<Rightarrow> error + 'b) \<Rightarrow> 'a list \<Rightarrow> error + 'b list" where
  "map_result f [] = Inr []"
| "map_result f (x # xs) =
     and_then (f x) (\<lambda>y. and_then (map_result f xs) (\<lambda>ys. Inr (y # ys)))"

datatype ndarray = Scalar rat | Array "ndarray list"

record variable =
  var_dims :: "string list"
  var_data :: ndarray

text \<open>
  \<open>coords\<close> are the dimension coordinates (one ordered axis per dimension);
  \<open>scalar_coords\<close> are the coordinates left behind by a selection of one position
  along an axis: the matched coordinate value, no longer a dimension.
\<close>

record dataset =
  coords :: "(string \<times> rat list) list"
  scalar_coords :: "(string \<times> rat) list"
  data_vars :: "(string \<times> variable) list"

text \<open>The shape of an array: one length per axis, outermost first.\<close>

fun has_shape :: "nat list \<Rightarrow> ndarray \<Rightarrow> bool" where
  "has_shape [] (Scalar v) = True"
| "has_shape (n # ns) (Array xs) = (length xs = n \<and> (\<forall>x \<in> set xs. has_shape ns x))"
| "has_shape [] (Array xs) = False"
| "has_shape (n # ns) (Scalar v) = False"

definition axis_len :: "dataset \<Rightarrow> string \<Rightarrow> nat" where
  "axis_len ds d = (case map_of (coords ds) d of None \<Rightarrow> 0 | Some cs \<Rightarrow> length cs)"

text \<open>
  What xarray guarantees of every dataset it hands out: coordinates and variables share
  one name space, so all their names are different; a variable names each of its
  dimensions once, every dimension has its coordinate axis, and the array of a variable
  has exactly the lengths of its axes.
\<close>

definition names_of :: "dataset \<Rightarrow> string list" where
  "names_of ds = map fst (coords ds) @ map fst (scalar_coords ds) @ map fst (data_vars ds)"

definition wf_variable :: "dataset \<Rightarrow> variable \<Rightarrow> bool" where
  "wf_variable ds v \<longleftrightarrow>
     distinct (var_dims v) \<and>
     (\<forall>d \<in> set (var_dims v). d \<in> fst ` set (coords ds)) \<and>
     has_shape (map (axis_len ds) (var_dims v)) (var_data v)"

definition wf_dataset :: "dataset \<Rightarrow> bool" where
  "wf_dataset ds \<longleftrightarrow>
     distinct (names_of ds) \<and>
     (\<forall>nv \<in> set (data_vars ds). wf_variable ds (snd nv))"

section \<open>Positional indexing and sorting (xarray \<open>isel\<close>, \<open>sortby\<close>)\<close>

fun index_of :: "'a \<Rightarrow> 'a list \<Rightarrow> nat option" where
  "index_of x [] = None"
| "index_of x (y # ys) =
     (if x = y then Some 0 else (case index_of x ys of None \<Rightarrow> None | Some i \<Rightarrow> Some (Suc i)))"

text \<open>\<open>take_axis k idx a\<close> picks the positions \<open>idx\<close>, in that order, along axis \<open>k\<close>.\<close>

fun take_axis :: "nat \<Rightarrow> nat list \<Rightarrow> ndarray \<Rightarrow> ndarray" where
  "take_axis k idx (Scalar v) = Scalar v"
| "take_axis 0 idx (Array xs) = Array (map (\<lambda>i. xs ! i) idx)"
| "take_axis (Suc k) idx (Array xs) = Array (map (take_axis k idx) xs)"

definition isel_var :: "string \<Rightarrow> nat list \<Rightarrow> variable \<Rightarrow> variable" where
  "isel_var d idx v =
     (case index_of d (var_dims v) of
        None \<Rightarrow> v
      | Some k \<Rightarrow> v\<lparr>var_data := take_axis k idx (var_data v)\<rparr>)"

definition isel :: "string \<Rightarrow> nat list \<Rightarrow> dataset \<Rightarrow> dataset" where
  "isel d idx ds =
     ds\<lparr>coords := map (\<lambda>(n, cs). if n = d then (n, map (\<lambda>i. cs ! i) idx) else (n, cs)) (coords ds),
        data_vars := map (\<lambda>(n, v). (n, isel_var d idx v)) (data_vars ds)\<rparr>"

text \<open>
  \<open>Dataset.sortby(dim, ascending=True)\<close> computes the order with \<open>numpy.lexsort\<close> on the
  coordinate values, a stable sort, and reindexes the dataset with it.
\<close>

definition argsort :: "rat list \<Rightarrow> nat list" where
  "argsort cs = map snd (sort_key fst (zip cs [0..<length cs]))"

definition sortby :: "dataset \<Rightarrow> string \<Rightarrow> error + dataset" where
  "sortby ds d =
     (case map_of (coords ds) d of
        None \<Rightarrow> Inl (KeyError d)
      | Some cs \<Rightarrow> Inr (isel d (argsort cs) ds))"

section \<open>The notebook's \<open>sort_dimension\<close>\<close>

text \<open>
  \<^verbatim>\<open>
  def sort_dimension(dataset, dim_name):
      coordinates = dataset[dim_name].values
      if (coordinates[0] >= coordinates[:-1]).all():
          dataset = dataset.sortby(dim_name, ascending=True)
      return dataset
  \<close>
  The test compares the first coordinate with every coordinate but the last one.
\<close>

definition sort_dimension :: "dataset \<Rightarrow> string \<Rightarrow> error + dataset" where
  "sort_dimension ds dim_name =
     (case map_of (coords ds) dim_name of
        None \<Rightarrow> Inl (KeyError dim_name)
      | Some coordinates \<Rightarrow>
          (case coordinates of
             [] \<Rightarrow> Inl IndexError
           | c0 # rest \<Rightarrow>
               if list_all (\<lambda>c. c0 \<ge> c) (butlast coordinates)
               then sortby ds dim_name
               else Inr ds))"

section \<open>Renaming the axes\<close>

text \<open>
  \<open>Dataset.rename({old: new})\<close> renames a variable, coordinate or dimension everywhere;
  it raises \<open>ValueError\<close> when \<open>old\<close> is not in the dataset or \<open>new\<close> is already
  taken.
\<close>

definition rename_name :: "string \<Rightarrow> string \<Rightarrow> string \<Rightarrow> string" where
  "rename_name old new n = (if n = old then new else n)"

definition rename :: "dataset \<Rightarrow> string \<Rightarrow> string \<Rightarrow> error + dataset" where
  "rename ds old new =
     (if old \<notin> set (names_of ds) then Inl (ValueError ''cannot rename: not in this dataset'')
      else if new \<in> set (names_of ds) then Inl (ValueError ''the new name conflicts'')
      else Inr
        \<lparr>coords = map (\<lambda>(n, cs). (rename_name old new n, cs)) (coords ds),
         scalar_coords = map (\<lambda>(n, c). (rename_name old new n, c)) (scalar_coords ds),
         data_vars =
           map (\<lambda>(n, v). (rename_name old new n,
                             v\<lparr>var_dims := map (rename_name old new) (var_dims v)\<rparr>))
               (data_vars ds)\<rparr>)"

text \<open>
  \<^verbatim>\<open>
  for coordinate in dataset.coords:
      if coordinate=='lon':
          dataset = dataset.rename({'lon': 'longitude'})
      if coordinate=='lat':
          dataset = dataset.rename({'lat': 'latitude'})
  dataset = sort_dimension(dataset, 'latitude')
  dataset = sort_dimension(dataset, 'longitude')
  \<close>
  The loop runs over the coordinate names of the dataset as it was opened.
\<close>

fun rename_loop :: "string list \<Rightarrow> dataset \<Rightarrow> error + dataset" where
  "rename_loop [] ds = Inr ds"
| "rename_loop (coordinate # rest) ds =
     and_then (if coordinate = ''lon'' then rename ds ''lon'' ''longitude'' else Inr ds)
       (\<lambda>ds1. and_then (if coordinate = ''lat'' then rename ds1 ''lat'' ''latitude'' else Inr ds1)
          (\<lambda>ds2. rename_loop rest ds2))"

definition rename_dimensions :: "dataset \<Rightarrow> error + dataset" where
  "rename_dimensions ds = rename_loop (map fst (coords ds) @ map fst (scalar_coords ds)) ds"

definition normalize_dataset :: "dataset \<Rightarrow> error + dataset" where
  "normalize_dataset ds =
     and_then (rename_dimensions ds)
       (\<lambda>ds1. and_then (sort_dimension ds1 ''latitude'')
          (\<lambda>ds2. sort_dimension ds2 ''longitude''))"

section \<open>Label lookup (pandas \<open>Index\<close>, xarray \<open>sel\<close>)\<close>

text \<open>
  \<open>sel(..., method="nearest")\<close> asks the pandas index of the axis through
  \<open>Index.get_indexer(target, method="nearest")\<close>. That routine refuses an index with
  repeated labels, finds the neighbour at or before the target (\<open>pad\<close>) and the one at or
  after it (\<open>backfill\<close>) in index order, and keeps the nearer of the two; on equal
  distances it keeps the one with the larger label. Positions are integers, \<open>-1\<close> meaning
  "none", and \<open>index[-1]\<close> reads the last label, as numpy does.
\<close>

definition searchsorted_left :: "rat list \<Rightarrow> rat \<Rightarrow> nat" where
  "searchsorted_left a v = length (filter (\<lambda>c. c < v) a)"

definition searchsorted_right :: "rat list \<Rightarrow> rat \<Rightarrow> nat" where
  "searchsorted_right a v = length (filter (\<lambda>c. c \<le> v) a)"

definition is_monotonic_increasing :: "rat list \<Rightarrow> bool" where
  "is_monotonic_increasing index = sorted index"

definition is_monotonic_decreasing :: "rat list \<Rightarrow> bool" where
  "is_monotonic_decreasing index = sorted (rev index)"

definition searchsorted_monotonic :: "rat list \<Rightarrow> rat \<Rightarrow> bool \<Rightarrow> error + nat" where
  "searchsorted_monotonic index label left =
     (if is_monotonic_increasing index then
        Inr (if left then searchsorted_left index label else searchsorted_right index label)
      else if is_monotonic_decreasing index then
        Inr (length index -
             (if left then searchsorted_right (rev index) label
              else searchsorted_left (rev index) label))
      else Inl (ValueError ''index must be monotonic increasing or decreasing''))"

definition get_fill_indexer :: "rat list \<Rightarrow> rat \<Rightarrow> bool \<Rightarrow> error + int" where
  "get_fill_indexer index target pad =
     (if is_monotonic_increasing index then
        Inr (if pad then int (searchsorted_right index target) - 1
             else (let k = searchsorted_left index target
                   in if k = length index then - 1 else int k))
      else
        (case index_of target index of
           Some p \<Rightarrow> Inr (int p)
         | None \<Rightarrow>
             and_then (searchsorted_monotonic index target pad)
               (\<lambda>k. Inr (if pad then int k - 1
                          else if k = length index then - 1 else int k))))"

definition py_getitem :: "rat list \<Rightarrow> int \<Rightarrow> rat" where
  "py_getitem xs i = (if i < 0 then xs ! nat (int (length xs) + i) else xs ! nat i)"

definition get_nearest_indexer :: "rat list \<Rightarrow> rat \<Rightarrow> error + int" where
  "get_nearest_indexer index target =
     (if index = [] then get_fill_indexer index target True
      else
        and_then (get_fill_indexer index target True) (\<lambda>left_indexer.
        and_then (get_fill_indexer index target False) (\<lambda>right_indexer.
          let left_distances = \<bar>py_getitem index left_indexer - target\<bar>;
              right_distances = \<bar>py_getitem index right_indexer - target\<bar>;
              op = (if is_monotonic_increasing index
                    then left_distances < right_distances
                    else left_distances \<le> right_distances)
          in Inr (if op \<or> right_indexer = - 1 then left_indexer else right_indexer))))"

definition get_indexer_nearest :: "rat list \<Rightarrow> rat \<Rightarrow> error + int" where
  "get_indexer_nearest index target =
     (if \<not> distinct index then Inl InvalidIndexError
      else get_nearest_indexer index target)"

text \<open>xarray turns a position \<open>-1\<close> into \<open>KeyError\<close> ("not all values found in index").\<close>

definition sel_nearest_index :: "string \<Rightarrow> rat list \<Rightarrow> rat \<Rightarrow> error + nat" where
  "sel_nearest_index d index label =
     and_then (get_indexer_nearest index label)
       (\<lambda>i. if i < 0 then Inl (KeyError d) else Inr (nat i))"

text \<open>
  \<open>sel(time=slice(start, end))\<close> is pandas label slicing, both bounds included:
  \<open>Index.slice_indexer\<close> takes the left bound of \<open>start\<close> and the right bound of \<open>end\<close>
  (\<open>get_slice_bound\<close>) and cuts the positions between them.
\<close>

definition positions_of :: "rat \<Rightarrow> rat list \<Rightarrow> nat list" where
  "positions_of label index = filter (\<lambda>i. index ! i = label) [0..<length index]"

definition get_slice_bound :: "string \<Rightarrow> rat list \<Rightarrow> rat \<Rightarrow> bool \<Rightarrow> error + nat" where
  "get_slice_bound d index label left =
     (case positions_of label index of
        [] \<Rightarrow>
          (case searchsorted_monotonic index label left of
             Inl e \<Rightarrow> Inl (KeyError d)
           | Inr k \<Rightarrow> Inr k)
      | p # ps \<Rightarrow>
          if ps = [] \<or> is_monotonic_increasing index \<or> is_monotonic_decreasing index
          then Inr (if left then p else last (p # ps) + 1)
          else Inl (KeyError d))"

definition sel_slice :: "string \<Rightarrow> rat \<Rightarrow> rat \<Rightarrow> dataset \<Rightarrow> error + dataset" where
  "sel_slice d start end ds =
     (case map_of (coords ds) d of
        None \<Rightarrow> Inl (KeyError d)
      | Some index \<Rightarrow>
          and_then (get_slice_bound d index start True) (\<lambda>start_slice.
          and_then (get_slice_bound d index end False) (\<lambda>end_slice.
            Inr (isel d [start_slice..<end_slice] ds))))"

text \<open>Selecting one position along an axis drops the dimension and keeps its label.\<close>

fun index_axis :: "nat \<Rightarrow> nat \<Rightarrow> ndarray \<Rightarrow> ndarray" where
  "index_axis k i (Scalar v) = Scalar v"
| "index_axis 0 i (Array xs) = xs ! i"
| "index_axis (Suc k) i (Array xs) = Array (map (index_axis k i) xs)"

definition isel_scalar_var :: "string \<Rightarrow> nat \<Rightarrow> variable \<Rightarrow> variable" where
  "isel_scalar_var d i v =
     (case index_of d (var_dims v) of
        None \<Rightarrow> v
      | Some k \<Rightarrow> \<lparr>var_dims = filter (\<lambda>n. n \<noteq> d) (var_dims v),
                   var_data = index_axis k i (var_data v)\<rparr>)"

definition isel_scalar :: "string \<Rightarrow> nat \<Rightarrow> dataset \<Rightarrow> dataset" where
  "isel_scalar d i ds =
     \<lparr>coords = filter (\<lambda>(n, cs). n \<noteq> d) (coords ds),
      scalar_coords =
        scalar_coords ds @
        (case map_of (coords ds) d of None \<Rightarrow> [] | Some cs \<Rightarrow> [(d, cs ! i)]),
      data_vars = map (\<lambda>(n, v). (n, isel_scalar_var d i v)) (data_vars ds)\<rparr>"

text \<open>
  \<open>sel(d1=l1, d2=l2, ..., method="nearest")\<close>: every key must be an indexed dimension
  (\<open>KeyError\<close> otherwise); then each label is resolved on its own axis, and the positions
  are applied together.
\<close>

definition sel_nearest :: "(string \<times> rat) list \<Rightarrow> dataset \<Rightarrow> error + dataset" where
  "sel_nearest indexers ds =
     and_then
       (map_result
          (\<lambda>(d, label). case map_of (coords ds) d of
                           None \<Rightarrow> Inl (KeyError d)
                         | Some index \<Rightarrow> Inr (d, index, label))
          indexers)
       (\<lambda>queries.
          and_then
            (map_result
               (\<lambda>(d, index, label). and_then (sel_nearest_index d index label) (\<lambda>i. Inr (d, i)))
               queries)
            (\<lambda>positions. Inr (fold (\<lambda>(d, i) acc. isel_scalar d i acc) positions ds)))"

section \<open>The query table\<close>

text \<open>
  The input table \<open>dataframe_coordinates\<close> is a pandas data frame: named columns of equal
  length, one row per query point. Reading a column that is not there raises \<open>KeyError\<close>;
  \<open>assign\<close> replaces a column of the same name or appends a new one. The row labels are
  \<open>0, 1, 2, ...\<close>, as \<open>read_csv\<close> gives them. Time stamps are already numbers here.
\<close>

type_synonym dataframe = "(string \<times> rat list) list"

definition column :: "dataframe \<Rightarrow> string \<Rightarrow> error + rat list" where
  "column df name = (case map_of df name of None \<Rightarrow> Inl (KeyError name) | Some c \<Rightarrow> Inr c)"

fun assign_column :: "string \<Rightarrow> rat list \<Rightarrow> dataframe \<Rightarrow> dataframe" where
  "assign_column name c [] = [(name, c)]"
| "assign_column name c ((n, c') # df) =
     (if n = name then (name, c) # df else (n, c') # assign_column name c df)"

definition assign :: "dataframe \<Rightarrow> (string \<times> rat list) list \<Rightarrow> dataframe" where
  "assign df cols = fold (\<lambda>(name, c) acc. assign_column name c acc) cols df"

definition nrows :: "dataframe \<Rightarrow> nat" where
  "nrows df = (case df of [] \<Rightarrow> 0 | (n, c) # rest \<Rightarrow> length c)"

definition index_labels :: "dataframe \<Rightarrow> rat list" where
  "index_labels df = map of_nat [0..<nrows df]"

text \<open>Python's \<open>zip\<close> stops with its shortest argument; \<open>row[k]\<close> raises past the end.\<close>

definition py_zip :: "rat list list \<Rightarrow> rat list list" where
  "py_zip cols =
     (case cols of
        [] \<Rightarrow> []
      | c # cs \<Rightarrow>
          map (\<lambda>i. map (\<lambda>col. col ! i) cols)
              [0..<foldr (\<lambda>col n. min (length col) n) cs (length c)])"

definition tuple_get :: "rat list \<Rightarrow> nat \<Rightarrow> error + rat" where
  "tuple_get row k = (if k < length row then Inr (row ! k) else Inl IndexError)"

section \<open>Sampling one point\<close>

text \<open>
  \<open>dataset[var]\<close> is the array of one variable with the coordinates of its dimensions;
  \<open>dataset[variables]\<close>, with a list, is the dataset cut down to these variables.
  \<open>float(...)\<close> converts an array of exactly one element.
\<close>

definition dataset_dims :: "dataset \<Rightarrow> string list" where
  "dataset_dims ds = map fst (coords ds) @ concat (map (\<lambda>(n, v). var_dims v) (data_vars ds))"

definition getitem :: "dataset \<Rightarrow> string \<Rightarrow> error + dataset" where
  "getitem ds var =
     (case map_of (data_vars ds) var of
        Some v \<Rightarrow>
          Inr \<lparr>coords = filter (\<lambda>(n, cs). n \<in> set (var_dims v)) (coords ds),
               scalar_coords = scalar_coords ds,
               data_vars = [(var, v)]\<rparr>
      | None \<Rightarrow>
          (case map_of (coords ds) var of
             Some cs \<Rightarrow>
               Inr \<lparr>coords = [(var, cs)],
                    scalar_coords = scalar_coords ds,
                    data_vars = [(var, \<lparr>var_dims = [var], var_data = Array (map Scalar cs)\<rparr>)]\<rparr>
           | None \<Rightarrow> Inl (KeyError var)))"

definition getitem_list :: "dataset \<Rightarrow> string list \<Rightarrow> error + dataset" where
  "getitem_list ds vars =
     and_then
       (map_result
          (\<lambda>var. case map_of (data_vars ds) var of
                   Some v \<Rightarrow> Inr [(var, v)]
                 | None \<Rightarrow> (if var \<in> fst ` set (coords ds) then Inr [] else Inl (KeyError var)))
          vars)
       (\<lambda>found.
          let kept = concat found;
              needed = vars @ concat (map (\<lambda>(n, v). var_dims v) kept)
          in Inr \<lparr>coords = filter (\<lambda>(n, cs). n \<in> set needed) (coords ds),
                  scalar_coords = scalar_coords ds,
                  data_vars = kept\<rparr>)"

fun float_of :: "ndarray \<Rightarrow> error + rat" where
  "float_of (Scalar v) = Inr v"
| "float_of (Array [a]) = float_of a"
| "float_of (Array xs) = Inl TypeError"

definition to_float :: "dataset \<Rightarrow> error + rat" where
  "to_float da =
     (case data_vars da of
        [(n, v)] \<Rightarrow> float_of (var_data v)
      | _ \<Rightarrow> Inl TypeError)"

text \<open>
  Instant mode, one row of the table, for a dataset with a depth axis and for one without:
  \<^verbatim>\<open>
  float(dataset[var].sel(time=row[0], depth=row[3], method="nearest")
                    .sel(latitude=row[1], longitude=row[2], method='nearest'))
  float(dataset[var].sel(time=row[0], method="nearest")
                    .sel(latitude=row[1], longitude=row[2], method='nearest'))
  \<close>
  with \<open>row\<close> from \<open>zip(Date, Latitude, Longitude, Depth)\<close> or \<open>zip(Date, Latitude, Longitude)\<close>.
\<close>

definition sample_3d :: "dataset \<Rightarrow> string \<Rightarrow> rat list \<Rightarrow> error + rat" where
  "sample_3d ds var row =
     and_then (getitem ds var) (\<lambda>da.
     and_then (tuple_get row 0) (\<lambda>r0.
     and_then (tuple_get row 3) (\<lambda>r3.
     and_then (sel_nearest [(''time'', r0), (''depth'', r3)] da) (\<lambda>da1.
     and_then (tuple_get row 1) (\<lambda>r1.
     and_then (tuple_get row 2) (\<lambda>r2.
     and_then (sel_nearest [(''latitude'', r1), (''longitude'', r2)] da1) to_float))))))"

definition sample_2d :: "dataset \<Rightarrow> string \<Rightarrow> rat list \<Rightarrow> error + rat" where
  "sample_2d ds var row =
     and_then (getitem ds var) (\<lambda>da.
     and_then (tuple_get row 0) (\<lambda>r0.
     and_then (sel_nearest [(''time'', r0)] da) (\<lambda>da1.
     and_then (tuple_get row 1) (\<lambda>r1.
     and_then (tuple_get row 2) (\<lambda>r2.
     and_then (sel_nearest [(''latitude'', r1), (''longitude'', r2)] da1) to_float)))))"

text \<open>\<open>dataset.sel(time=date, method="nearest").time.values\<close>: the matched time stamp.\<close>

definition matched_time :: "dataset \<Rightarrow> rat \<Rightarrow> error + rat" where
  "matched_time ds date =
     and_then (sel_nearest [(''time'', date)] ds)
       (\<lambda>ds1. case map_of (scalar_coords ds1) ''time'' of
                 None \<Rightarrow> Inl (KeyError ''time'')
               | Some t \<Rightarrow> Inr t)"

section \<open>Download temporal points (column \<open>Date\<close>)\<close>

text \<open>
  The body of the loop for one opened dataset, up to the table that is written. The
  columns named in a \<open>zip\<close> are read before the first row is sampled, and only when there
  is a variable to sample.
\<close>

definition sample_columns ::
  "(dataset \<Rightarrow> string \<Rightarrow> rat list \<Rightarrow> error + rat) \<Rightarrow> string list \<Rightarrow>
   dataset \<Rightarrow> string list \<Rightarrow> dataframe \<Rightarrow> error + (string \<times> rat list) list" where
  "sample_columns sample names ds variables df =
     map_result
       (\<lambda>var. and_then (map_result (column df) names) (\<lambda>cols.
               and_then (map_result (sample ds var) (py_zip cols)) (\<lambda>vals.
               Inr (var, vals))))
       variables"

definition temporal_points :: "dataset \<Rightarrow> string list \<Rightarrow> dataframe \<Rightarrow> error + dataframe" where
  "temporal_points opened variables dataframe_coordinates =
     and_then (normalize_dataset opened) (\<lambda>ds.
     and_then
       (if ''depth'' \<in> set (dataset_dims ds)
        then sample_columns sample_3d [''Date'', ''Latitude'', ''Longitude'', ''Depth'']
               ds variables dataframe_coordinates
        else sample_columns sample_2d [''Date'', ''Latitude'', ''Longitude'']
               ds variables dataframe_coordinates)
       (\<lambda>cols.
          let dataframe_final = assign dataframe_coordinates cols
          in and_then (column dataframe_final ''Date'') (\<lambda>dates.
             and_then (map_result (matched_time ds) dates) (\<lambda>matched.
             Inr (assign dataframe_final [(''Date_dataset'', matched)])))))"

text \<open>
  \<^verbatim>\<open>
  for dataset_id, output_name in zip(list_datasetID, output_names):
      dataset = copernicusmarine.open_dataset(dataset_id = dataset_id)
      ...
      dataframe_final.to_csv(output_dir + output_name + "_temporal_points.csv")
  \<close>
  \<open>open_dataset\<close> is the remote catalogue, a parameter here. The result is the list of
  files written, in order, and the exception that ended the run, if any.
\<close>

fun temporal_points_loop ::
  "(string \<Rightarrow> error + dataset) \<Rightarrow> string list \<Rightarrow> dataframe \<Rightarrow> string \<Rightarrow>
   (string \<times> string) list \<Rightarrow> (string \<times> dataframe) list \<Rightarrow>
   (string \<times> dataframe) list \<times> error option" where
  "temporal_points_loop open_dataset variables df output_dir [] files = (files, None)"
| "temporal_points_loop open_dataset variables df output_dir ((dataset_id, output_name) # rest) files =
     (case and_then (open_dataset dataset_id) (\<lambda>dataset. temporal_points dataset variables df) of
        Inl e \<Rightarrow> (files, Some e)
      | Inr dataframe_final \<Rightarrow>
          temporal_points_loop open_dataset variables df output_dir rest
            (files @ [(output_dir @ output_name @ ''_temporal_points.csv'', dataframe_final)]))"

definition download_temporal_points ::
  "(string \<Rightarrow> error + dataset) \<Rightarrow> string list \<Rightarrow> dataframe \<Rightarrow> string \<Rightarrow>
   string list \<Rightarrow> string list \<Rightarrow> (string \<times> dataframe) list \<times> error option" where
  "download_temporal_points open_dataset variables df output_dir list_datasetID output_names =
     temporal_points_loop open_dataset variables df output_dir (zip list_datasetID output_names) []"

section \<open>Download timeseries (columns \<open>Start\<close> and \<open>End\<close>)\<close>

text \<open>
  One row of the table:
  \<^verbatim>\<open>
  dataset_point = dataset[variables].sel(time=slice(row[0],row[1]))
                    .sel(latitude=row[2], longitude=row[3], depth=row[4], method="nearest")
  dataset_point.to_dataframe().to_csv(output_dir + output_name + f"point_{row[5]}.csv")
  \<close>
  for a dataset with a depth axis, \<open>row\<close> from
  \<open>zip(Start, End, Latitude, Longitude, Depth, index)\<close>; without a depth axis the selection
  has no \<open>depth\<close> and \<open>row\<close> comes from \<open>zip(Start, End, Latitude, Longitude, index)\<close>,
  the file name still reading \<open>row[5]\<close>.
\<close>

definition subset_3d :: "dataset \<Rightarrow> string list \<Rightarrow> rat list \<Rightarrow> error + dataset" where
  "subset_3d ds variables row =
     and_then (getitem_list ds variables) (\<lambda>sub.
     and_then (tuple_get row 0) (\<lambda>r0.
     and_then (tuple_get row 1) (\<lambda>r1.
     and_then (sel_slice ''time'' r0 r1 sub) (\<lambda>sub1.
     and_then (tuple_get row 2) (\<lambda>r2.
     and_then (tuple_get row 3) (\<lambda>r3.
     and_then (tuple_get row 4) (\<lambda>r4.
     sel_nearest [(''latitude'', r2), (''longitude'', r3), (''depth'', r4)] sub1)))))))"

definition subset_2d :: "dataset \<Rightarrow> string list \<Rightarrow> rat list \<Rightarrow> error + dataset" where
  "subset_2d ds variables row =
     and_then (getitem_list ds variables) (\<lambda>sub.
     and_then (tuple_get row 0) (\<lambda>r0.
     and_then (tuple_get row 1) (\<lambda>r1.
     and_then (sel_slice ''time'' r0 r1 sub) (\<lambda>sub1.
     and_then (tuple_get row 2) (\<lambda>r2.
     and_then (tuple_get row 3) (\<lambda>r3.
     sel_nearest [(''latitude'', r2), (''longitude'', r3)] sub1))))))"

function string_of_nat :: "nat \<Rightarrow> string" where
  "string_of_nat n =
     (if n < 10 then [char_of (48 + n)]
      else string_of_nat (n div 10) @ [char_of (48 + n mod 10)])"
  by pat_completeness auto
termination
  by (relation "measure (\<lambda>n. n)") auto

definition point_file :: "string \<Rightarrow> string \<Rightarrow> rat \<Rightarrow> string" where
  "point_file output_dir output_name label =
     output_dir @ output_name @ ''point_'' @ string_of_nat (nat \<lfloor>label\<rfloor>) @ ''.csv''"

fun points_loop ::
  "(rat list \<Rightarrow> error + dataset) \<Rightarrow> string \<Rightarrow> string \<Rightarrow> rat list list \<Rightarrow>
   (string \<times> dataset) list \<Rightarrow> (string \<times> dataset) list \<times> error option" where
  "points_loop select output_dir output_name [] files = (files, None)"
| "points_loop select output_dir output_name (row # rows) files =
     (case and_then (select row) (\<lambda>dataset_point.
           and_then (tuple_get row 5) (\<lambda>r5.
           Inr (point_file output_dir output_name r5, dataset_point))) of
        Inl e \<Rightarrow> (files, Some e)
      | Inr written \<Rightarrow> points_loop select output_dir output_name rows (files @ [written]))"

definition timeseries ::
  "dataset \<Rightarrow> string list \<Rightarrow> dataframe \<Rightarrow> string \<Rightarrow> string \<Rightarrow>
   (string \<times> dataset) list \<Rightarrow> (string \<times> dataset) list \<times> error option" where
  "timeseries opened variables dataframe_coordinates output_dir output_name files =
     (case normalize_dataset opened of
        Inl e \<Rightarrow> (files, Some e)
      | Inr ds \<Rightarrow>
          if ''depth'' \<in> set (dataset_dims ds) then
            (case map_result (column dataframe_coordinates)
                    [''Start'', ''End'', ''Latitude'', ''Longitude'', ''Depth''] of
               Inl e \<Rightarrow> (files, Some e)
             | Inr cols \<Rightarrow>
                 points_loop (subset_3d ds variables) output_dir output_name
                   (py_zip (cols @ [index_labels dataframe_coordinates])) files)
          else
            (case map_result (column dataframe_coordinates)
                    [''Start'', ''End'', ''Latitude'', ''Longitude''] of
               Inl e \<Rightarrow> (files, Some e)
             | Inr cols \<Rightarrow>
                 points_loop (subset_2d ds variables) output_dir output_name
                   (py_zip (cols @ [index_labels dataframe_coordinates])) files))"

text \<open>
  \<^verbatim>\<open>
  for datset_id, output_name in zip(list_datasetID, output_names):
      dataset = copernicusmarine.open_dataset(dataset_id = dataset_id)
  \<close>
  The loop binds \<open>datset_id\<close> and opens \<open>dataset_id\<close>, a name of the notebook's global
  scope: unbound in a fresh session (\<open>NameError\<close>), otherwise whatever an earlier cell
  left there. \<open>global_dataset_id\<close> is that binding.
\<close>

fun timeseries_loop ::
  "(string \<Rightarrow> error + dataset) \<Rightarrow> string list \<Rightarrow> dataframe \<Rightarrow> string \<Rightarrow> string option \<Rightarrow>
   (string \<times> string) list \<Rightarrow> (string \<times> dataset) list \<Rightarrow>
   (string \<times> dataset) list \<times> error option" where
  "timeseries_loop open_dataset variables df output_dir global_dataset_id [] files = (files, None)"
| "timeseries_loop open_dataset variables df output_dir global_dataset_id
     ((datset_id, output_name) # rest) files =
     (case (case global_dataset_id of
              None \<Rightarrow> Inl (NameError ''dataset_id'')
            | Some dataset_id \<Rightarrow> open_dataset dataset_id) of
        Inl e \<Rightarrow> (files, Some e)
      | Inr dataset \<Rightarrow>
          (case timeseries dataset variables df output_dir output_name files of
             (files', Some e) \<Rightarrow> (files', Some e)
           | (files', None) \<Rightarrow>
               timeseries_loop open_dataset variables df output_dir global_dataset_id rest files'))"

definition download_timeseries ::
  "(string \<Rightarrow> error + dataset) \<Rightarrow> string list \<Rightarrow> dataframe \<Rightarrow> string \<Rightarrow> string option \<Rightarrow>
   string list \<Rightarrow> string list \<Rightarrow> (string \<times> dataset) list \<times> error option" where
  "download_timeseries open_dataset variables df output_dir global_dataset_id
     list_datasetID output_names =
     timeseries_loop open_dataset variables df output_dir global_dataset_id
       (zip list_datasetID output_names) []"

section \<open>Scenarios\<close>

text \<open>
  The scenario of the specification: a grid with latitude \<open>[42, 41, 40]\<close> (descending),
  longitude \<open>[5, 6, 7]\<close>, two time steps, under the alternate axis names, and a variable
  \<open>uo\<close> over (time, latitude, longitude) that is 1.5 at latitude 42, longitude 6 of the
  first time step.
\<close>

definition scenario_grid :: dataset where
  "scenario_grid =
     \<lparr>coords = [(''time'', [0, 1]), (''lat'', [42, 41, 40]), (''lon'', [5, 6, 7])],
      scalar_coords = [],
      data_vars =
        [(''uo'',
          \<lparr>var_dims = [''time'', ''lat'', ''lon''],
           var_data =
             Array
               [Array [Array [Scalar 1, Scalar (3 / 2), Scalar 3],
                       Array [Scalar 4, Scalar 5, Scalar 6],
                       Array [Scalar 7, Scalar 8, Scalar 9]],
                Array [Array [Scalar 11, Scalar 12, Scalar 13],
                       Array [Scalar 14, Scalar 15, Scalar 16],
                       Array [Scalar 17, Scalar 18, Scalar 19]]]\<rparr>)]\<rparr>"

text \<open>A small grid already in ascending order, the longitude axis with two points.\<close>

definition ascending_grid :: dataset where
  "ascending_grid =
     \<lparr>coords = [(''time'', [0, 1]), (''latitude'', [40, 41, 42]), (''longitude'', [5, 6])],
      scalar_coords = [],
      data_vars =
        [(''uo'',
          \<lparr>var_dims = [''time'', ''latitude'', ''longitude''],
           var_data =
             Array
               [Array [Array [Scalar 1, Scalar 2], Array [Scalar 3, Scalar 4],
                       Array [Scalar 5, Scalar 6]],
                Array [Array [Scalar 7, Scalar 8], Array [Scalar 9, Scalar 10],
                       Array [Scalar 11, Scalar 12]]]\<rparr>)]\<rparr>"

text \<open>The scenario grid after the renaming loop, and after the whole normalization.\<close>

definition scenario_renamed :: dataset where
  "scenario_renamed =
     \<lparr>coords = [(''time'', [0, 1]), (''latitude'', [42, 41, 40]), (''longitude'', [5, 6, 7])],
      scalar_coords = [],
      data_vars =
        [(''uo'',
          \<lparr>var_dims = [''time'', ''latitude'', ''longitude''],
           var_data =
             Array
               [Array [Array [Scalar 1, Scalar (3 / 2), Scalar 3],
                       Array [Scalar 4, Scalar 5, Scalar 6],
                       Array [Scalar 7, Scalar 8, Scalar 9]],
                Array [Array [Scalar 11, Scalar 12, Scalar 13],
                       Array [Scalar 14, Scalar 15, Scalar 16],
                       Array [Scalar 17, Scalar 18, Scalar 19]]]\<rparr>)]\<rparr>"

definition scenario_normalized :: dataset where
  "scenario_normalized =
     \<lparr>coords = [(''time'', [0, 1]), (''latitude'', [40, 41, 42]), (''longitude'', [5, 6, 7])],
      scalar_coords = [],
      data_vars =
        [(''uo'',
          \<lparr>var_dims = [''time'', ''latitude'', ''longitude''],
           var_data =
             Array
               [Array [Array [Scalar 7, Scalar 8, Scalar 9],
                       Array [Scalar 4, Scalar 5, Scalar 6],
                       Array [Scalar 1, Scalar (3 / 2), Scalar 3]],
                Array [Array [Scalar 17, Scalar 18, Scalar 19],
                       Array [Scalar 14, Scalar 15, Scalar 16],
                       Array [Scalar 11, Scalar 12, Scalar 13]]]\<rparr>)]\<rparr>"

text \<open>
  Two grids whose latitude axis is neither ascending nor descending: one with a dip at
  the end, one with a repeated coordinate.
\<close>

definition zigzag_grid :: dataset where
  "zigzag_grid =
     \<lparr>coords = [(''time'', [0]), (''latitude'', [41, 42, 40]), (''longitude'', [5, 6])],
      scalar_coords = [],
      data_vars =
        [(''uo'',
          \<lparr>var_dims = [''time'', ''latitude'', ''longitude''],
           var_data =
             Array [Array [Array [Scalar 1, Scalar 2], Array [Scalar 3, Scalar 4],
                           Array [Scalar 5, Scalar 6]]]\<rparr>)]\<rparr>"



section \<open>The value at a physical point\<close>

text \<open>
  A physical point gives one coordinate value per dimension. \<open>value_at\<close> reads a
  variable there by exact label lookup (the first position of the axis that carries the
  label), and is undefined when the variable or one of the labels is not in the dataset.
  It is the observation used to compare a dataset before and after reindexing.
\<close>

fun lookup_nd :: "nat list \<Rightarrow> ndarray \<Rightarrow> rat option" where
  "lookup_nd [] (Scalar v) = Some v"
| "lookup_nd (i # rest) (Array xs) = (if i < length xs then lookup_nd rest (xs ! i) else None)"
| "lookup_nd [] (Array xs) = None"
| "lookup_nd (i # rest) (Scalar v) = None"

definition label_position :: "dataset \<Rightarrow> (string \<Rightarrow> rat) \<Rightarrow> string \<Rightarrow> nat option" where
  "label_position ds point d =
     (case map_of (coords ds) d of None \<Rightarrow> None | Some cs \<Rightarrow> index_of (point d) cs)"

definition value_at :: "dataset \<Rightarrow> string \<Rightarrow> (string \<Rightarrow> rat) \<Rightarrow> rat option" where
  "value_at ds var point =
     (case map_of (data_vars ds) var of
        None \<Rightarrow> None
      | Some v \<Rightarrow>
          (case those (map (label_position ds point) (var_dims v)) of
             None \<Rightarrow> None
           | Some positions \<Rightarrow> lookup_nd positions (var_data v)))"

text \<open>The query of the scenario: latitude 42, longitude 6, at the first time step.\<close>

definition scenario_query :: dataframe where
  "scenario_query = [(''Date'', [0]), (''Latitude'', [42]), (''Longitude'', [6])]"

definition scenario_point :: "string \<Rightarrow> rat" where
  "scenario_point d = (if d = ''latitude'' then 42 else if d = ''longitude'' then 6 else 0)"

section \<open>The nearest coordinate\<close>



text \<open>
  A catalogue with three datasets, and a table of ten queries on the zigzag grid of
  which the fourth asks for latitude 41.5, between two grid coordinates; the others ask
  for coordinates of the grid.
\<close>

definition catalogue :: "string \<Rightarrow> error + dataset" where
  "catalogue dataset_id =
     (if dataset_id = ''zigzag'' then Inr zigzag_grid
      else if dataset_id = ''scenario'' then Inr scenario_grid
      else if dataset_id = ''ascending'' then Inr ascending_grid
      else Inl (KeyError dataset_id))"



text \<open>
  Two datasets with a depth axis on the same grid, told apart by their values, and a
  table with one query that has every column the two loops read.
\<close>

definition depth_grid :: "rat \<Rightarrow> dataset" where
  "depth_grid offset =
     \<lparr>coords = [(''time'', [0, 1, 2]), (''depth'', [0, 10]), (''latitude'', [40, 41]),
                (''longitude'', [5, 6])],
      scalar_coords = [],
      data_vars =
        [(''uo'',
          \<lparr>var_dims = [''time'', ''depth'', ''latitude'', ''longitude''],
           var_data =
             Array (map (\<lambda>t. Array (map (\<lambda>z. Array (map (\<lambda>y. Array (map (\<lambda>x.
                      Scalar (offset + 8 * t + 4 * z + 2 * y + x)) [0, 1])) [0, 1])) [0, 1]))
                    [0, 1, 2])\<rparr>)]\<rparr>"

definition depth_catalogue :: "string \<Rightarrow> error + dataset" where
  "depth_catalogue dataset_id =
     (if dataset_id = ''first'' then Inr (depth_grid 0)
      else if dataset_id = ''second'' then Inr (depth_grid 100)
      else Inl (KeyError dataset_id))"

definition one_query :: dataframe where
  "one_query =
     [(''Latitude'', [40]), (''Longitude'', [5]), (''Start'', [0]), (''End'', [1]),
      (''Depth'', [0]), (''Date'', [0])]"

text \<open>The series of \<open>uo\<close> at that point between time 0 and time 1, for a given offset.\<close>

definition point_series :: "rat \<Rightarrow> dataset" where
  "point_series offset =
     \<lparr>coords = [(''time'', [0, 1])],
      scalar_coords = [(''latitude'', 40), (''longitude'', 5), (''depth'', 0)],
      data_vars =
        [(''uo'', \<lparr>var_dims = [''time''],
                   var_data = Array [Scalar offset, Scalar (offset + 8)]\<rparr>)]\<rparr>"

text \<open>A query table with its \<open>Depth\<close> column taken away.\<close>

definition without_depth :: "dataframe \<Rightarrow> dataframe" where
  "without_depth df = filter (\<lambda>c. fst c \<noteq> ''Depth'') df"



section \<open>Reindexing with the identity\<close>

lemma argsort_strict_id:
  assumes "sorted_wrt (<) cs"
  shows "argsort cs = [0..<length cs]"
proof -
  have "sorted (map fst (zip cs [0..<length cs]))"
    using assms by (simp add: strict_sorted_imp_sorted)
  then have "sort_key fst (zip cs [0..<length cs]) = zip cs [0..<length cs]"
    by (rule sort_key_id_if_sorted)
  then show ?thesis by (simp add: argsort_def)
qed

lemma take_axis_id:
  "has_shape shape a \<Longrightarrow> k < length shape \<Longrightarrow> take_axis k [0..<shape ! k] a = a"
proof (induction k arbitrary: shape a)
  case 0
  then show ?case by (cases shape; cases a) (auto simp: map_nth)
next
  case (Suc k)
  then show ?case by (cases shape; cases a) (auto simp: map_idI)
qed

lemma index_of_Some: "index_of x xs = Some k \<Longrightarrow> k < length xs \<and> xs ! k = x"
  by (induction xs arbitrary: k) (auto split: if_splits option.splits)

lemma index_of_None: "index_of x xs = None \<longleftrightarrow> x \<notin> set xs"
  by (induction xs) (auto split: option.splits)

lemma wf_dataset_distinct:
  assumes "wf_dataset ds"
  shows "distinct (map fst (coords ds))" "distinct (map fst (data_vars ds))"
    "distinct (map fst (scalar_coords ds))"
    "set (map fst (coords ds)) \<inter> set (map fst (scalar_coords ds)) = {}"
  using assms by (auto simp: wf_dataset_def names_of_def)

lemma isel_var_id:
  assumes "wf_variable ds v"
  shows "isel_var d [0..<axis_len ds d] v = v"
proof (cases "index_of d (var_dims v)")
  case None
  then show ?thesis by (simp add: isel_var_def)
next
  case (Some k)
  then have k: "k < length (var_dims v)" "var_dims v ! k = d"
    using index_of_Some by fastforce+
  have "take_axis k [0..<map (axis_len ds) (var_dims v) ! k] (var_data v) = var_data v"
    using assms k by (intro take_axis_id) (auto simp: wf_variable_def)
  then show ?thesis using Some k by (simp add: isel_var_def)
qed

lemma isel_id:
  assumes "wf_dataset ds" "map_of (coords ds) d = Some cs"
  shows "isel d [0..<length cs] ds = ds"
proof -
  have len: "axis_len ds d = length cs" using assms by (simp add: axis_len_def)
  have c: "map (\<lambda>(n, cs'). if n = d then (n, map (\<lambda>i. cs' ! i) [0..<length cs]) else (n, cs')) (coords ds) = coords ds"
  proof (rule map_idI)
    fix p assume p: "p \<in> set (coords ds)"
    obtain n cs' where [simp]: "p = (n, cs')" by (cases p)
    have "n = d \<Longrightarrow> cs' = cs"
      using assms(2) p wf_dataset_distinct(1)[OF assms(1)]
      by (auto dest: map_of_SomeD eq_key_imp_eq_value)
    then show "(case p of (n, cs') \<Rightarrow> if n = d then (n, map (\<lambda>i. cs' ! i) [0..<length cs]) else (n, cs')) = p"
      by (auto simp: map_nth)
  qed
  have v: "map (\<lambda>(n, v). (n, isel_var d [0..<length cs] v)) (data_vars ds) = data_vars ds"
  proof (rule map_idI)
    fix p assume p: "p \<in> set (data_vars ds)"
    then have "wf_variable ds (snd p)" using assms by (auto simp: wf_dataset_def)
    then show "(case p of (n, v) \<Rightarrow> (n, isel_var d [0..<length cs] v)) = p"
      using isel_var_id[of ds "snd p" d] len by (cases p) auto
  qed
  show ?thesis by (simp add: isel_def c v)
qed

text \<open>
  C10. Sorting is a no-op on an axis that is already in order: when the coordinates of
  the axis are strictly ascending and there are at least two of them,
  \<open>sort_dimension\<close> returns the dataset it was given. (On an axis of exactly two
  points the test of \<open>sort_dimension\<close> holds and \<open>sortby\<close> runs, with the identity
  order.)
\<close>

theorem sort_dimension_ascending_noop:
  assumes "wf_dataset ds" "map_of (coords ds) d = Some cs" "sorted_wrt (<) cs" "2 \<le> length cs"
  shows "sort_dimension ds d = Inr ds"
proof -
  obtain c0 rest where cs: "cs = c0 # rest" using assms(4) by (cases cs) auto
  have "sortby ds d = Inr ds"
    using assms by (simp add: sortby_def argsort_strict_id isel_id)
  then show ?thesis using assms(2) cs by (simp add: sort_dimension_def)
qed

theorem sort_dimension_ascending_noop_witness:
  "wf_dataset ascending_grid \<and>
   map_of (coords ascending_grid) ''longitude'' = Some [5, 6] \<and>
   sorted_wrt (<) [5, 6 :: rat] \<and> 2 \<le> length [5, 6 :: rat] \<and>
   sort_dimension ascending_grid ''longitude'' = Inr ascending_grid"
proof -
  have wf: "wf_dataset ascending_grid"
    by (simp add: ascending_grid_def wf_dataset_def names_of_def wf_variable_def axis_len_def)
  have ax: "map_of (coords ascending_grid) ''longitude'' = Some [5, 6]"
    by (simp add: ascending_grid_def)
  have asc: "sorted_wrt (<) [5, 6 :: rat]" by simp
  have len: "2 \<le> length [5, 6 :: rat]" by simp
  show ?thesis
    using wf ax asc len sort_dimension_ascending_noop [OF wf ax asc len] by simp
qed

section \<open>Sorting an axis\<close>

lemma set_argsort: "set (argsort cs) = {0..<length cs}"
proof -
  have "set (argsort cs) = set (map snd (zip cs [0..<length cs]))"
    unfolding argsort_def set_map set_sort ..
  also have "map snd (zip cs [0..<length cs]) = [0..<length cs]" by simp
  finally show ?thesis by simp
qed

lemma length_argsort [simp]: "length (argsort cs) = length cs"
  by (simp add: argsort_def)

lemma map_insort_key: "map f (insort_key f x xs) = insort (f x) (map f xs)"
  by (induction xs) auto

lemma map_sort_key: "map f (sort_key f xs) = sort (map f xs)"
  by (induction xs) (auto simp: map_insort_key)

lemma take_argsort: "map (\<lambda>i. cs ! i) (argsort cs) = sort cs"
proof -
  let ?zs = "sort_key fst (zip cs [0..<length cs])"
  have "\<And>p. p \<in> set ?zs \<Longrightarrow> cs ! snd p = fst p"
    by (auto simp: set_zip)
  then have "map (\<lambda>i. cs ! i) (argsort cs) = map fst ?zs"
    by (simp add: argsort_def)
  also have "\<dots> = sort (map fst (zip cs [0..<length cs]))" by (rule map_sort_key)
  finally show ?thesis by simp
qed

lemma map_of_isel_coords:
  "map_of (map (\<lambda>(n, cs). if n = d then (n, map (\<lambda>i. cs ! i) idx) else (n, cs)) al) d' =
     (if d' = d then map_option (\<lambda>cs. map (\<lambda>i. cs ! i) idx) (map_of al d) else map_of al d')"
  by (induction al) auto

lemma map_of_isel:
  "map_of (coords (isel d idx ds)) d' =
     (if d' = d then map_option (\<lambda>cs. map (\<lambda>i. cs ! i) idx) (map_of (coords ds) d)
      else map_of (coords ds) d')"
  using map_of_isel_coords[of d idx "coords ds" d'] by (simp add: isel_def)

lemma names_isel [simp]: "map fst (coords (isel d idx ds)) = map fst (coords ds)"
  by (auto simp: isel_def)



lemma descending_passes_test:
  fixes cs :: "rat list"
  assumes "sorted_wrt (>) cs" shows "\<forall>c \<in> set (butlast cs). c \<le> hd cs"
proof (cases cs)
  case Nil then show ?thesis by simp
next
  case (Cons c0 rest)
  have "c \<le> c0" if "c \<in> set (butlast cs)" for c
  proof -
    have "c \<in> set cs" using that by (rule in_set_butlastD)
    then show ?thesis using assms Cons by auto
  qed
  then show ?thesis using Cons by simp
qed

section \<open>Exceptions\<close>

lemma and_then_Inr: "and_then r f = Inr y \<longleftrightarrow> (\<exists>x. r = Inr x \<and> f x = Inr y)"
  by (cases r) (auto simp: and_then_def)

lemma and_then_simps [simp]: "and_then (Inl e) f = Inl e" "and_then (Inr x) f = f x"
  by (simp_all add: and_then_def)

section \<open>Normalization and the order of the axes\<close>








section \<open>Reindexing is a permutation of the values\<close>

lemma lookup_take_axis:
  "has_shape shape a \<Longrightarrow> length is = length shape \<Longrightarrow> k < length shape \<Longrightarrow>
   set p \<subseteq> {0..<shape ! k} \<Longrightarrow> is ! k < length p \<Longrightarrow>
   lookup_nd is (take_axis k p a) = lookup_nd (is[k := p ! (is ! k)]) a"
proof (induction k arbitrary: shape a "is")
  case 0
  then show ?case
    by (cases shape; cases a; cases "is") (auto simp: subset_iff)
next
  case (Suc k)
  from Suc.prems obtain n ns xs i rest where
    eq: "shape = n # ns" "a = Array xs" "is = i # rest"
    by (cases shape; cases a; cases "is") auto
  show ?case
  proof (cases "i < length xs")
    case True
    then have "has_shape ns (xs ! i)" using Suc.prems(1) eq by simp
    then have "lookup_nd rest (take_axis k p (xs ! i)) =
               lookup_nd (rest[k := p ! (rest ! k)]) (xs ! i)"
      using Suc.prems eq by (intro Suc.IH) auto
    then show ?thesis using eq True by simp
  next
    case False
    then show ?thesis using eq by simp
  qed
qed

lemma index_of_map_hd:
  "index_of x (map f ys) = Some j \<Longrightarrow> ys ! j = hd (filter (\<lambda>p. f p = x) ys)"
proof (induction ys arbitrary: j)
  case Nil then show ?case by simp
next
  case (Cons y ys)
  then show ?case by (auto split: if_splits option.splits)
qed

lemma index_of_argsort:
  assumes "index_of x (sort cs) = Some j'"
  shows "index_of x cs = Some (argsort cs ! j')"
proof -
  let ?zs = "zip cs [0..<length cs]"
  let ?ss = "sort_key fst ?zs"
  have ms: "map fst ?ss = sort cs" by (simp add: map_sort_key)
  have "x \<in> set (sort cs)" using assms by (metis index_of_None option.distinct(1))
  then have "x \<in> set cs" by simp
  then obtain j where j: "index_of x cs = Some j"
    by (metis index_of_None not_Some_eq)
  have mz: "map fst ?zs = cs" by simp
  have "?ss ! j' = hd (filter (\<lambda>p. fst p = x) ?ss)"
    using assms ms index_of_map_hd[of x fst ?ss j'] by simp
  also have "\<dots> = hd (filter (\<lambda>p. fst p = x) ?zs)" by (simp only: sort_key_stable)
  also have "\<dots> = ?zs ! j"
    using j mz index_of_map_hd[of x fst ?zs j] by simp
  finally have "?ss ! j' = ?zs ! j" .
  moreover have "j < length cs" using j index_of_Some by fastforce
  moreover have "j' < length cs" using assms index_of_Some[of x "sort cs" j'] by simp
  ultimately have "argsort cs ! j' = j" by (simp add: argsort_def)
  then show ?thesis using j by simp
qed

lemma index_of_sort_None: "index_of x (sort cs) = None \<longleftrightarrow> index_of x cs = None"
  by (simp add: index_of_None)

lemma those_map_option:
  "those (map (\<lambda>e. map_option (h e) (f e)) es) =
     map_option (\<lambda>js. map (\<lambda>(e, j). h e j) (zip es js)) (those (map f es))"
proof (induction es)
  case Nil then show ?case by simp
next
  case (Cons e es)
  then show ?case by (cases "f e"; cases "those (map f es)") auto
qed

lemma those_length: "those xs = Some ys \<Longrightarrow> length ys = length xs"
  by (induction xs arbitrary: ys) (auto split: option.splits)

lemma those_nth: "those xs = Some ys \<Longrightarrow> i < length xs \<Longrightarrow> xs ! i = Some (ys ! i)"
proof (induction xs arbitrary: ys i)
  case Nil then show ?case by simp
next
  case (Cons x xs)
  then show ?case by (cases i) (auto split: option.splits)
qed

lemma update_one_position:
  assumes "distinct es" "k < length es" "es ! k = d" "length js = length es"
  shows "map (\<lambda>(e, j). if e = d then g j else j) (zip es js) = js[k := g (js ! k)]"
proof (rule nth_equalityI)
  show "length (map (\<lambda>(e, j). if e = d then g j else j) (zip es js)) = length (js[k := g (js ! k)])"
    using assms by simp
next
  fix i assume "i < length (map (\<lambda>(e, j). if e = d then g j else j) (zip es js))"
  then have i: "i < length es" using assms by simp
  have "es ! i = d \<longleftrightarrow> i = k"
    using assms i by (auto simp: nth_eq_iff_index_eq)
  then show "map (\<lambda>(e, j). if e = d then g j else j) (zip es js) ! i = js[k := g (js ! k)] ! i"
    using assms i by (auto simp: nth_list_update)
qed

lemma map_of_isel_vars:
  "map_of (data_vars (isel d idx ds)) var = map_option (isel_var d idx) (map_of (data_vars ds) var)"
  by (simp add: isel_def map_of_map)

lemma var_dims_isel_var [simp]: "var_dims (isel_var d idx v) = var_dims v"
  by (simp add: isel_var_def split: option.splits)

lemma label_position_argsort:
  assumes "map_of (coords ds) d = Some cs"
  shows "label_position ds point e =
           map_option (\<lambda>j. if e = d then argsort cs ! j else j)
             (label_position (isel d (argsort cs) ds) point e)"
proof (cases "e = d")
  case False
  then show ?thesis by (simp add: label_position_def map_of_isel option.map_ident split: option.splits)
next
  case True
  show ?thesis
  proof (cases "index_of (point d) (sort cs)")
    case None
    then show ?thesis using assms True index_of_sort_None[of "point d" cs]
      by (simp add: label_position_def map_of_isel take_argsort)
  next
    case (Some j')
    then show ?thesis using assms True index_of_argsort[OF Some]
      by (simp add: label_position_def map_of_isel take_argsort)
  qed
qed

lemma value_at_isel_argsort:
  assumes wf: "wf_dataset ds" and cs: "map_of (coords ds) d = Some cs"
  shows "value_at (isel d (argsort cs) ds) var point = value_at ds var point"
proof (cases "map_of (data_vars ds) var")
  case None
  then show ?thesis by (simp add: value_at_def map_of_isel_vars)
next
  case (Some v)
  let ?p = "argsort cs"
  let ?ds' = "isel d ?p ds"
  let ?h = "\<lambda>e j. if e = d then ?p ! j else j"
  have wfv: "wf_variable ds v"
    using wf Some by (auto simp: wf_dataset_def dest!: map_of_SomeD)
  have pos: "those (map (label_position ds point) (var_dims v)) =
        map_option (\<lambda>js. map (\<lambda>(e, j). ?h e j) (zip (var_dims v) js))
          (those (map (label_position ?ds' point) (var_dims v)))"
  proof -
    have "map (label_position ds point) (var_dims v) =
          map (\<lambda>e. map_option (?h e) (label_position ?ds' point e)) (var_dims v)"
      by (rule map_cong[OF refl]) (rule label_position_argsort[OF cs])
    then show ?thesis
      by (simp only: those_map_option[of ?h "label_position ?ds' point" "var_dims v"])
  qed
  show ?thesis
  proof (cases "those (map (label_position ?ds' point) (var_dims v))")
    case None
    then show ?thesis using Some pos by (simp add: value_at_def map_of_isel_vars)
  next
    case js: (Some js)
    have len: "length js = length (var_dims v)" using those_length[OF js] by simp
    show ?thesis
    proof (cases "index_of d (var_dims v)")
      case None
      then have "d \<notin> set (var_dims v)" by (simp add: index_of_None)
      then have "map (\<lambda>(e, j). ?h e j) (zip (var_dims v) js) = js"
        using len by (intro nth_equalityI) auto
      then show ?thesis using Some pos js None
        by (simp add: value_at_def map_of_isel_vars isel_var_def)
    next
      case k: (Some k)
      then have kk: "k < length (var_dims v)" "var_dims v ! k = d"
        using index_of_Some by fastforce+
      have upd: "map (\<lambda>(e, j). ?h e j) (zip (var_dims v) js) = js[k := ?p ! (js ! k)]"
        using wfv kk len by (intro update_one_position) (auto simp: wf_variable_def)
      have "label_position ?ds' point d = Some (js ! k)"
        using those_nth[OF js, of k] kk by simp
      then have "index_of (point d) (sort cs) = Some (js ! k)"
        using cs by (simp add: label_position_def map_of_isel take_argsort)
      then have jk: "js ! k < length cs"
        using index_of_Some[of "point d" "sort cs" "js ! k"] by simp
      have "lookup_nd js (take_axis k ?p (var_data v)) =
            lookup_nd (js[k := ?p ! (js ! k)]) (var_data v)"
      proof (rule lookup_take_axis)
        show "has_shape (map (axis_len ds) (var_dims v)) (var_data v)"
          using wfv by (simp add: wf_variable_def)
        show "length js = length (map (axis_len ds) (var_dims v))" using len by simp
        show "k < length (map (axis_len ds) (var_dims v))" using kk by simp
        show "set ?p \<subseteq> {0..<map (axis_len ds) (var_dims v) ! k}"
          using kk cs by (simp add: set_argsort axis_len_def)
        show "js ! k < length ?p" using jk by simp
      qed
      then show ?thesis using Some pos js k upd
        by (simp add: value_at_def map_of_isel_vars isel_var_def)
    qed
  qed
qed

lemma sort_dimension_value_at:
  assumes "wf_dataset ds" "sort_dimension ds d = Inr ds'"
  shows "value_at ds' var point = value_at ds var point"
  using assms value_at_isel_argsort
  by (auto simp: sort_dimension_def sortby_def split: option.splits list.splits if_splits)

lemma has_shape_take_axis:
  "has_shape shape a \<Longrightarrow> k < length shape \<Longrightarrow> set p \<subseteq> {0..<shape ! k} \<Longrightarrow>
   length p = shape ! k \<Longrightarrow> has_shape shape (take_axis k p a)"
proof (induction k arbitrary: shape a)
  case 0
  then show ?case by (cases shape; cases a) (auto simp: subset_iff)
next
  case (Suc k)
  then show ?case by (cases shape; cases a) auto
qed

lemma axis_len_isel:
  assumes "map_of (coords ds) d = Some cs" "length p = length cs"
  shows "axis_len (isel d p ds) e = axis_len ds e"
  using assms by (simp add: axis_len_def map_of_isel split: option.splits)

lemma wf_isel:
  assumes wf: "wf_dataset ds" and cs: "map_of (coords ds) d = Some cs"
    and p: "set p \<subseteq> {0..<length cs}" "length p = length cs"
  shows "wf_dataset (isel d p ds)"
proof -
  have al: "axis_len (isel d p ds) = axis_len ds"
    using axis_len_isel[OF cs p(2)] by auto
  have v: "wf_variable (isel d p ds) (isel_var d p v)" if "wf_variable ds v" for v
  proof (cases "index_of d (var_dims v)")
    case None
    then show ?thesis using that
      by (simp add: wf_variable_def isel_var_def al del: set_map) (metis names_isel set_map)
  next
    case (Some k)
    then have kk: "k < length (var_dims v)" "var_dims v ! k = d"
      using index_of_Some by fastforce+
    have "has_shape (map (axis_len ds) (var_dims v)) (take_axis k p (var_data v))"
      using that kk cs p
      by (intro has_shape_take_axis) (auto simp: wf_variable_def axis_len_def)
    then show ?thesis using that Some
      by (simp add: wf_variable_def isel_var_def al del: set_map) (metis names_isel set_map)
  qed
  have "names_of (isel d p ds) = names_of ds"
    by (auto simp: isel_def names_of_def)
  moreover have "\<forall>nv \<in> set (data_vars (isel d p ds)). wf_variable (isel d p ds) (snd nv)"
    using wf v by (auto simp: isel_def wf_dataset_def)
  ultimately show ?thesis using wf by (simp add: wf_dataset_def)
qed

lemma wf_sort_dimension:
  assumes "wf_dataset ds" "sort_dimension ds d = Inr ds'"
  shows "wf_dataset ds'"
  using assms wf_isel[of ds d _ "argsort _"]
  by (auto simp: sort_dimension_def sortby_def set_argsort split: option.splits list.splits if_splits)

lemma inj_on_rename_name: "new \<notin> S \<Longrightarrow> inj_on (rename_name old new) S"
  by (auto simp: inj_on_def rename_name_def split: if_splits)

lemma map_of_rename_keys:
  assumes "inj_on \<rho> (insert k (fst ` set al))"
  shows "map_of (map (\<lambda>(n, x). (\<rho> n, f x)) al) (\<rho> k) = map_option f (map_of al k)"
  using assms
proof (induction al)
  case Nil then show ?case by simp
next
  case (Cons a al)
  obtain n x where [simp]: "a = (n, x)" by (cases a)
  have "inj_on \<rho> (insert k (fst ` set al))"
    using Cons.prems by (auto simp: inj_on_def)
  with Cons.IH have IH: "map_of (map (\<lambda>(n, x). (\<rho> n, f x)) al) (\<rho> k) = map_option f (map_of al k)"
    by simp
  have "\<rho> k = \<rho> n \<longleftrightarrow> k = n" using Cons.prems by (auto simp: inj_on_def)
  then show ?case using IH by auto
qed

lemma wf_rename:
  assumes wf: "wf_dataset ds" and r: "rename ds old new = Inr ds1"
  shows "wf_dataset ds1"
proof -
  let ?\<rho> = "rename_name old new"
  have new: "new \<notin> set (names_of ds)" using r by (auto simp: rename_def split: if_splits)
  have c1: "coords ds1 = map (\<lambda>(n, cs). (?\<rho> n, cs)) (coords ds)"
    and v1: "data_vars ds1 = map (\<lambda>(n, v). (?\<rho> n, v\<lparr>var_dims := map ?\<rho> (var_dims v)\<rparr>)) (data_vars ds)"
    using r by (auto simp: rename_def split: if_splits)
  have s1: "scalar_coords ds1 = map (\<lambda>(n, c). (?\<rho> n, c)) (scalar_coords ds)"
    using r by (auto simp: rename_def split: if_splits)
  have injc: "inj_on ?\<rho> (fst ` set (coords ds))"
    using new by (intro inj_on_rename_name) (auto simp: names_of_def)
  have inja: "inj_on ?\<rho> (set (names_of ds))"
    using new by (intro inj_on_rename_name)
  have "names_of ds1 = map ?\<rho> (names_of ds)"
    by (auto simp: names_of_def c1 v1 s1)
  then have d1: "distinct (names_of ds1)"
    using wf inja by (simp add: wf_dataset_def distinct_map)
  have al: "axis_len ds1 (?\<rho> e) = axis_len ds e" if "e \<in> fst ` set (coords ds)" for e
  proof -
    have "insert e (fst ` set (coords ds)) = fst ` set (coords ds)" using that by auto
    then have "inj_on ?\<rho> (insert e (fst ` set (coords ds)))" using injc by simp
    then have "map_of (map (\<lambda>(n, x). (?\<rho> n, (\<lambda>x. x) x)) (coords ds)) (?\<rho> e) =
               map_option (\<lambda>x. x) (map_of (coords ds) e)"
      by (rule map_of_rename_keys)
    then have "map_of (coords ds1) (?\<rho> e) = map_of (coords ds) e"
      by (simp add: c1 option.map_ident)
    then show ?thesis by (simp add: axis_len_def)
  qed
  have v: "wf_variable ds1 (v\<lparr>var_dims := map ?\<rho> (var_dims v)\<rparr>)" if w: "wf_variable ds v" for v
  proof -
    have sub: "set (var_dims v) \<subseteq> fst ` set (coords ds)"
      using w by (auto simp: wf_variable_def)
    have "distinct (map ?\<rho> (var_dims v))"
      using w sub injc by (auto simp: wf_variable_def distinct_map intro: inj_on_subset)
    moreover have "\<forall>d \<in> set (map ?\<rho> (var_dims v)). d \<in> fst ` set (coords ds1)"
      using sub by (force simp: c1)
    moreover have "map (axis_len ds1) (map ?\<rho> (var_dims v)) = map (axis_len ds) (var_dims v)"
      using sub al by auto
    then have "has_shape (map (axis_len ds1) (map ?\<rho> (var_dims v))) (var_data v)"
      using w by (simp only: wf_variable_def)
    ultimately show ?thesis by (simp add: wf_variable_def del: map_map)
  qed
  have "\<forall>nv \<in> set (data_vars ds1). wf_variable ds1 (snd nv)"
    using wf v by (auto simp: v1 wf_dataset_def)
  then show ?thesis using d1 by (simp add: wf_dataset_def)
qed

lemma rename_values:
  assumes "rename ds old new = Inr ds1"
  shows "map snd (coords ds1) = map snd (coords ds)"
    and "map (\<lambda>(n, v). var_data v) (data_vars ds1) = map (\<lambda>(n, v). var_data v) (data_vars ds)"
  using assms by (auto simp: rename_def split: if_splits)

lemma rename_loop_wf_values:
  assumes "rename_loop names ds = Inr ds1"
  shows "(wf_dataset ds \<longrightarrow> wf_dataset ds1) \<and> map snd (coords ds1) = map snd (coords ds) \<and>
         map (\<lambda>(n, v). var_data v) (data_vars ds1) = map (\<lambda>(n, v). var_data v) (data_vars ds)"
  using assms
proof (induction names arbitrary: ds)
  case Nil
  then show ?case by simp
next
  case (Cons n rest)
  from Cons.prems(1) obtain dsA dsB where
    A: "(if n = ''lon'' then rename ds ''lon'' ''longitude'' else Inr ds) = Inr dsA" and
    B: "(if n = ''lat'' then rename dsA ''lat'' ''latitude'' else Inr dsA) = Inr dsB" and
    R: "rename_loop rest dsB = Inr ds1"
    by (auto simp: and_then_Inr)
  have a: "(wf_dataset ds \<longrightarrow> wf_dataset dsA) \<and> map snd (coords dsA) = map snd (coords ds) \<and>
         map (\<lambda>(n, v). var_data v) (data_vars dsA) = map (\<lambda>(n, v). var_data v) (data_vars ds)"
    using A wf_rename rename_values by (cases "n = ''lon''") auto
  have b: "(wf_dataset dsA \<longrightarrow> wf_dataset dsB) \<and> map snd (coords dsB) = map snd (coords dsA) \<and>
         map (\<lambda>(n, v). var_data v) (data_vars dsB) = map (\<lambda>(n, v). var_data v) (data_vars dsA)"
    using B wf_rename rename_values by (cases "n = ''lat''") auto
  show ?case using a b Cons.IH[OF R] by simp
qed

text \<open>
  C2. Normalization only relabels and reorders. The renaming loop keeps every coordinate
  sequence and every data array as it is; the two sorts that follow are index
  permutations: the value of every variable at every physical point (one coordinate
  label per dimension) is the same after normalization as in the renamed dataset,
  undefined in one exactly when undefined in the other. In the scenario, the query at
  latitude 42, longitude 6 and the first time step returns \<open>uo = 1.5\<close>, and the
  matched time is that time step.
\<close>

theorem normalize_dataset_preserves_values:
  assumes "wf_dataset ds" and "rename_dimensions ds = Inr ds1"
    and "normalize_dataset ds = Inr ds'"
  shows "value_at ds' var point = value_at ds1 var point \<and>
         map snd (coords ds1) = map snd (coords ds) \<and>
         map (\<lambda>(n, v). var_data v) (data_vars ds1) = map (\<lambda>(n, v). var_data v) (data_vars ds) \<and>
         temporal_points scenario_grid [''uo''] scenario_query =
           Inr (scenario_query @ [(''uo'', [3 / 2]), (''Date_dataset'', [0])])"
proof -
  from assms(2,3) obtain ds2 where
    s1: "sort_dimension ds1 ''latitude'' = Inr ds2" and
    s2: "sort_dimension ds2 ''longitude'' = Inr ds'"
    by (auto simp: normalize_dataset_def and_then_Inr)
  have r: "(wf_dataset ds \<longrightarrow> wf_dataset ds1) \<and> map snd (coords ds1) = map snd (coords ds) \<and>
         map (\<lambda>(n, v). var_data v) (data_vars ds1) = map (\<lambda>(n, v). var_data v) (data_vars ds)"
    using assms(2) unfolding rename_dimensions_def by (rule rename_loop_wf_values)
  then have wf1: "wf_dataset ds1" using assms(1) by simp
  have wf2: "wf_dataset ds2" using wf1 s1 by (rule wf_sort_dimension)
  have "value_at ds' var point = value_at ds2 var point"
    using wf2 s2 by (rule sort_dimension_value_at)
  also have "\<dots> = value_at ds1 var point"
    using wf1 s1 by (rule sort_dimension_value_at)
  finally have v: "value_at ds' var point = value_at ds1 var point" .
  have sc: "temporal_points scenario_grid [''uo''] scenario_query =
           Inr (scenario_query @ [(''uo'', [3 / 2]), (''Date_dataset'', [0])])"
    by code_simp
  show ?thesis using v r sc by simp
qed

theorem normalize_dataset_preserves_values_witness:
  "wf_dataset scenario_grid \<and>
   rename_dimensions scenario_grid = Inr scenario_renamed \<and>
   normalize_dataset scenario_grid = Inr scenario_normalized \<and>
   value_at scenario_normalized ''uo'' scenario_point = Some (3 / 2) \<and>
   value_at scenario_renamed ''uo'' scenario_point = Some (3 / 2)"
proof -
  have w: "wf_dataset scenario_grid"
    by (simp add: scenario_grid_def wf_dataset_def names_of_def wf_variable_def axis_len_def)
  have r: "rename_dimensions scenario_grid = Inr scenario_renamed" by code_simp
  have n: "normalize_dataset scenario_grid = Inr scenario_normalized" by code_simp
  have v: "value_at scenario_renamed ''uo'' scenario_point = Some (3 / 2)" by code_simp
  show ?thesis
    using w r n v normalize_dataset_preserves_values [OF w r n, of "''uo''" scenario_point]
    by simp
qed

section \<open>Nearest-neighbour lookup on a monotonic axis\<close>





lemma py_getitem_nat [simp]: "py_getitem xs (int k) = xs ! k"
  by (simp add: py_getitem_def)

lemma py_getitem_last [simp]: "xs \<noteq> [] \<Longrightarrow> py_getitem xs (- 1) = xs ! (length xs - 1)"
  by (simp add: py_getitem_def nat_diff_distrib' int_ops)

lemma py_getitem_0 [simp]: "py_getitem xs 0 = xs ! 0"
  by (simp add: py_getitem_def)





















section \<open>The instant-mode table\<close>

lemma map_result_Inr:
  "map_result f xs = Inr ys \<Longrightarrow> length ys = length xs \<and> (\<forall>i < length xs. f (xs ! i) = Inr (ys ! i))"
proof (induction xs arbitrary: ys)
  case Nil then show ?case by simp
next
  case (Cons x xs)
  then obtain y ys' where y: "f x = Inr y" "map_result f xs = Inr ys'" "ys = y # ys'"
    by (auto simp: and_then_Inr)
  then show ?case using Cons.IH[OF y(2)] by (auto simp: nth_Cons split: nat.splits)
qed
















section \<open>Failures in a batch\<close>







section \<open>Which dataset is sampled\<close>

text \<open>
  The interval-mode loop never reads the dataset identifiers it iterates over: only the
  output names matter.
\<close>

lemma timeseries_loop_ignores_ids:
  assumes "map snd pairs = map snd pairs'"
  shows "timeseries_loop open_dataset variables df output_dir global_dataset_id pairs files =
         timeseries_loop open_dataset variables df output_dir global_dataset_id pairs' files"
  using assms
proof (induction pairs arbitrary: pairs' files)
  case Nil then show ?case by simp
next
  case (Cons p pairs)
  then obtain p' rest' where eq: "pairs' = p' # rest'" "snd p = snd p'" "map snd pairs = map snd rest'"
    by (cases pairs') auto
  obtain a n where [simp]: "p = (a, n)" by (cases p)
  obtain a' where [simp]: "p' = (a', n)" using eq(2) by (cases p') auto
  show ?case
    unfolding eq(1) using Cons.IH[OF eq(3)]
    by (auto split: option.splits sum.splits prod.splits)
qed

text \<open>
  C9 holds for the instant-mode loop and fails for the interval-mode loop. With the
  identifiers \<open>first\<close> and \<open>second\<close>, instant mode writes under each output name
  the values of the dataset paired with it. Interval mode opens the dataset named by the
  global \<open>dataset_id\<close> in every iteration: with \<open>second\<close> left there, both output
  names receive the series of \<open>second\<close>; with nothing there, the run ends with
  \<open>NameError\<close>.
\<close>

theorem timeseries_opens_stale_dataset:
  "download_temporal_points depth_catalogue [''uo''] one_query ''Dataframes/''
     [''first'', ''second''] [''a_'', ''b_''] =
     ([(''Dataframes/a__temporal_points.csv'',
        one_query @ [(''uo'', [0]), (''Date_dataset'', [0])]),
       (''Dataframes/b__temporal_points.csv'',
        one_query @ [(''uo'', [100]), (''Date_dataset'', [0])])], None) \<and>
   download_timeseries depth_catalogue [''uo''] one_query ''Dataframes/'' (Some ''second'')
     [''first'', ''second''] [''a_'', ''b_''] =
     ([(''Dataframes/a_point_0.csv'', point_series 100),
       (''Dataframes/b_point_0.csv'', point_series 100)], None) \<and>
   download_timeseries depth_catalogue [''uo''] one_query ''Dataframes/'' None
     [''first'', ''second''] [''a_'', ''b_''] = ([], Some (NameError ''dataset_id''))"
proof -
  have "download_temporal_points depth_catalogue [''uo''] one_query ''Dataframes/''
     [''first'', ''second''] [''a_'', ''b_''] =
     ([(''Dataframes/a__temporal_points.csv'',
        one_query @ [(''uo'', [0]), (''Date_dataset'', [0])]),
       (''Dataframes/b__temporal_points.csv'',
        one_query @ [(''uo'', [100]), (''Date_dataset'', [0])])], None)"
    by code_simp
  moreover have "download_timeseries depth_catalogue [''uo''] one_query ''Dataframes/'' (Some ''second'')
     [''first'', ''second''] [''a_'', ''b_''] =
     ([(''Dataframes/a_point_0.csv'', point_series 100),
       (''Dataframes/b_point_0.csv'', point_series 100)], None)"
    by code_simp
  moreover have "download_timeseries depth_catalogue [''uo''] one_query ''Dataframes/'' None
     [''first'', ''second''] [''a_'', ''b_''] = ([], Some (NameError ''dataset_id''))"
    by code_simp
  ultimately show ?thesis by simp
qed

section \<open>Depth and the dataset\<close>

text \<open>
  Whether depth takes part is decided by the dataset. With a depth axis, a query table
  without the \<open>Depth\<close> column makes both loops fail on that column; without a depth
  axis the instant-mode body never looks at \<open>Depth\<close>, and the interval-mode body
  never writes a file.
\<close>

lemma map_result_columns_missing:
  assumes "\<forall>n \<in> set present. n \<in> fst ` set df" "missing \<notin> fst ` set df"
  shows "map_result (column df) (present @ missing # rest) = Inl (KeyError missing)"
  using assms(1)
proof (induction present)
  case Nil
  have "map_of df missing = None" using assms(2) by (simp add: map_of_eq_None_iff)
  then show ?case by (simp add: column_def)
next
  case (Cons n present)
  then obtain c where "map_of df n = Some c"
    by (metis list.set_intros(1) map_of_eq_None_iff not_Some_eq)
  then show ?case using Cons by (simp add: column_def)
qed

lemma missing_depth_instant:
  assumes "normalize_dataset opened = Inr ds" "''depth'' \<in> set (dataset_dims ds)"
    and "variables \<noteq> []"
    and "\<forall>n \<in> set [''Date'', ''Latitude'', ''Longitude'']. n \<in> fst ` set df"
    and "''Depth'' \<notin> fst ` set df"
  shows "temporal_points opened variables df = Inl (KeyError ''Depth'')"
proof -
  obtain var rest where v: "variables = var # rest" using assms(3) by (cases variables) auto
  have "map_result (column df) ([''Date'', ''Latitude'', ''Longitude''] @ ''Depth'' # []) =
        Inl (KeyError ''Depth'')"
    using assms(4,5) by (rule map_result_columns_missing)
  then have "sample_columns sample_3d [''Date'', ''Latitude'', ''Longitude'', ''Depth'']
               ds variables df = Inl (KeyError ''Depth'')"
    unfolding sample_columns_def v by simp
  then show ?thesis using assms(1,2) by (simp add: temporal_points_def)
qed

lemma missing_depth_interval:
  assumes "normalize_dataset opened = Inr ds" "''depth'' \<in> set (dataset_dims ds)"
    and "\<forall>n \<in> set [''Start'', ''End'', ''Latitude'', ''Longitude'']. n \<in> fst ` set df"
    and "''Depth'' \<notin> fst ` set df"
  shows "timeseries opened variables df output_dir output_name files =
           (files, Some (KeyError ''Depth''))"
proof -
  have "map_result (column df) ([''Start'', ''End'', ''Latitude'', ''Longitude''] @ ''Depth'' # []) =
        Inl (KeyError ''Depth'')"
    using assms(3,4) by (rule map_result_columns_missing)
  then show ?thesis using assms(1,2) by (simp add: timeseries_def)
qed

lemma points_loop_2d_never_writes:
  assumes "\<forall>row \<in> set rows. length row = 5"
  shows "points_loop select output_dir output_name rows files =
           (files, if rows = [] then None
                   else Some (case select (hd rows) of Inl e \<Rightarrow> e | Inr pt \<Rightarrow> IndexError))"
proof (cases rows)
  case Nil then show ?thesis by simp
next
  case (Cons row rest)
  then have "length row = 5" using assms by simp
  then have "tuple_get row 5 = Inl IndexError" by (simp add: tuple_get_def)
  then show ?thesis using Cons by (cases "select row") simp_all
qed

lemma py_zip_row_length: "row \<in> set (py_zip cols) \<Longrightarrow> length row = length cols"
  by (auto simp: py_zip_def split: list.splits)

lemma timeseries_2d_never_writes:
  assumes "normalize_dataset opened = Inr ds" "''depth'' \<notin> set (dataset_dims ds)"
  shows "fst (timeseries opened variables df output_dir output_name files) = files"
proof (cases "map_result (column df) [''Start'', ''End'', ''Latitude'', ''Longitude'']")
  case (Inl e)
  then show ?thesis using assms by (simp add: timeseries_def)
next
  case (Inr cols)
  have "length cols = 4" using map_result_Inr[OF Inr] by simp
  then have "\<forall>row \<in> set (py_zip (cols @ [index_labels df])). length row = 5"
    using py_zip_row_length by fastforce
  then show ?thesis using assms Inr
    by (simp add: timeseries_def points_loop_2d_never_writes)
qed

lemma column_without_depth:
  "name \<noteq> ''Depth'' \<Longrightarrow> column (without_depth df) name = column df name"
  by (induction df) (auto simp: column_def without_depth_def)

lemma assign_column_without_depth:
  "name \<noteq> ''Depth'' \<Longrightarrow>
   without_depth (assign_column name c df) = assign_column name c (without_depth df)"
  by (induction df) (auto simp: without_depth_def)

lemma assign_without_depth:
  "''Depth'' \<notin> fst ` set cols \<Longrightarrow>
   without_depth (assign df cols) = assign (without_depth df) cols"
  unfolding assign_def
proof (induction cols arbitrary: df)
  case Nil then show ?case by simp
next
  case (Cons a cols)
  obtain name c where [simp]: "a = (name, c)" by (cases a)
  have "name \<noteq> ''Depth''" using Cons.prems by auto
  then show ?case using Cons by (simp add: assign_column_without_depth)
qed

lemma sample_columns_2d_without_depth:
  "sample_columns sample_2d [''Date'', ''Latitude'', ''Longitude''] ds variables (without_depth df) =
   sample_columns sample_2d [''Date'', ''Latitude'', ''Longitude''] ds variables df"
  by (simp add: sample_columns_def column_without_depth)

lemma sample_columns_names:
  "sample_columns sample names ds variables df = Inr cols \<Longrightarrow> map fst cols = variables"
  unfolding sample_columns_def
proof (induction variables arbitrary: cols)
  case Nil then show ?case by simp
next
  case (Cons var variables)
  then show ?case by (auto simp: and_then_Inr)
qed

lemma depth_ignored_instant:
  assumes "normalize_dataset opened = Inr ds" "''depth'' \<notin> set (dataset_dims ds)"
    and "''Depth'' \<notin> set variables"
  shows "temporal_points opened variables (without_depth df) =
           map_sum id without_depth (temporal_points opened variables df)"
proof (cases "sample_columns sample_2d [''Date'', ''Latitude'', ''Longitude''] ds variables df")
  case (Inl e)
  then show ?thesis using assms
    by (simp add: temporal_points_def sample_columns_2d_without_depth)
next
  case (Inr cols)
  have "map fst cols = variables" using Inr by (rule sample_columns_names)
  then have nd: "''Depth'' \<notin> fst ` set cols" using assms(3) by (metis list.set_map)
  have a: "assign (without_depth df) cols = without_depth (assign df cols)"
    using nd by (simp add: assign_without_depth)
  have d: "column (without_depth (assign df cols)) ''Date'' = column (assign df cols) ''Date''"
    by (simp add: column_without_depth)
  show ?thesis
  proof (cases "and_then (column (assign df cols) ''Date'') (map_result (matched_time ds))")
    case (Inl e)
    then show ?thesis using assms Inr a d
      by (cases "column (assign df cols) ''Date''")
         (simp_all add: temporal_points_def sample_columns_2d_without_depth Let_def)
  next
    case m: (Inr matched)
    then obtain dates where "column (assign df cols) ''Date'' = Inr dates"
      "map_result (matched_time ds) dates = Inr matched"
      by (auto simp: and_then_Inr)
    then show ?thesis using assms Inr a d
      by (simp add: temporal_points_def sample_columns_2d_without_depth Let_def
                    assign_without_depth[symmetric])
  qed
qed

text \<open>
  C6 at a dataset without a depth axis and a query that supplies a depth. Instant mode
  ignores the depth and writes its table. Interval mode selects the series of the point
  and then fails on \<open>row[5]\<close>: the row of the two-dimensional branch has five entries,
  \<open>row[4]\<close> being the row label.
\<close>

theorem timeseries_without_depth_axis_fails:
  "''depth'' \<notin> set (dataset_dims scenario_normalized) \<and>
   download_temporal_points catalogue [''uo''] one_query ''Dataframes/'' [''scenario''] [''a_''] =
     ([(''Dataframes/a__temporal_points.csv'',
        one_query @ [(''uo'', [7]), (''Date_dataset'', [0])])], None) \<and>
   subset_2d scenario_normalized [''uo''] [0, 1, 40, 5, 0] =
     Inr \<lparr>coords = [(''time'', [0, 1])],
          scalar_coords = [(''latitude'', 40), (''longitude'', 5)],
          data_vars = [(''uo'', \<lparr>var_dims = [''time''],
                                 var_data = Array [Scalar 7, Scalar 17]\<rparr>)]\<rparr> \<and>
   tuple_get [0, 1, 40, 5, 0] 5 = Inl IndexError \<and>
   download_timeseries catalogue [''uo''] one_query ''Dataframes/'' (Some ''scenario'')
     [''scenario''] [''a_''] = ([], Some IndexError)"
proof -
  have "''depth'' \<notin> set (dataset_dims scenario_normalized)"
    by (simp add: dataset_dims_def scenario_normalized_def)
  moreover have "download_temporal_points catalogue [''uo''] one_query ''Dataframes/''
     [''scenario''] [''a_''] =
     ([(''Dataframes/a__temporal_points.csv'',
        one_query @ [(''uo'', [7]), (''Date_dataset'', [0])])], None)"
    by code_simp
  moreover have "subset_2d scenario_normalized [''uo''] [0, 1, 40, 5, 0] =
     Inr \<lparr>coords = [(''time'', [0, 1])],
          scalar_coords = [(''latitude'', 40), (''longitude'', 5)],
          data_vars = [(''uo'', \<lparr>var_dims = [''time''],
                                 var_data = Array [Scalar 7, Scalar 17]\<rparr>)]\<rparr>"
    by code_simp
  moreover have "tuple_get [0, 1, 40, 5, 0] 5 = Inl IndexError" by (simp add: tuple_get_def)
  moreover have "download_timeseries catalogue [''uo''] one_query ''Dataframes/'' (Some ''scenario'')
     [''scenario''] [''a_''] = ([], Some IndexError)"
    by code_simp
  ultimately show ?thesis by simp
qed

section \<open>The interval-mode selection\<close>































end
